theory Spec2Isabelle
  imports Main "HOL-Library.Word"
begin

unbundle bit_operations_syntax

section \<open>Data model\<close>

text \<open>
  The agent of \<^verbatim>\<open>fioconfig\<close> keeps a directory of decrypted secret files in step with an
  encrypted bundle fetched from a server. Two source files are modelled: the current agent
  (\<^verbatim>\<open>extract\<close>, \<^verbatim>\<open>updateSecret\<close>, \<^verbatim>\<open>safeWrite\<close>, \<^verbatim>\<open>checkin\<close>, \<^verbatim>\<open>idToBytes\<close>) and the file
  \<^verbatim>\<open>internal/app.go\<close>, whose \<^verbatim>\<open>Extract\<close>, \<^verbatim>\<open>safeWrite\<close> and \<^verbatim>\<open>CheckIn\<close> carry the prefix
  \<open>app_\<close> here, since both files declare these names.

  Byte strings (\<^verbatim>\<open>[]byte\<close>, \<^verbatim>\<open>string\<close>) are \<^typ>\<open>string\<close>; single bytes that are computed
  with are \<^typ>\<open>8 word\<close>; \<^verbatim>\<open>os.FileMode\<close> is a 32-bit word; a point in time is a number of
  seconds.
\<close>

type_synonym byte = "8 word"
type_synonym path = string
type_synonym FileMode = "32 word"

text \<open>\<^verbatim>\<open>ConfigFile\<close> and \<^verbatim>\<open>ConfigStruct\<close> (a Go map from file name to entry). A map is ranged
  over in an order the runtime picks, so a bundle is the list of its entries in the order
  of one iteration; its keys are distinct.\<close>

record ConfigFile =
  Value :: string
  OnChanged :: "string list"

type_synonym ConfigStruct = "(string \<times> ConfigFile) list"

text \<open>\<^verbatim>\<open>configSnapshot\<close>: \<open>prev = None\<close> is the nil map.\<close>

record configSnapshot =
  prev :: "ConfigStruct option"
  "next" :: ConfigStruct

record App =
  EncryptedConfig :: path
  SecretsDir :: path
  configUrl :: string

subsection \<open>Errors\<close>

datatype errno = ENOENT | EISDIR | ENOTDIR | EACCES | EIO

datatype panic = SliceBoundsOutOfRange int | NilPointerDereference

text \<open>One constructor for each error value the two files build; \<open>External\<close> stands for
  an error of a collaborator (HTTP transport, bundle codec, body reader).\<close>

datatype error =
    PathError string path errno
  | LinkError string path path errno
  | External string
  | NotModifiedError
  | UnableToCreate path error
  | UnableToUpdateSecret path error
  | UnableToGet string error
  | UnableToReadNewSecrets error
  | UnableToSetModifiedTime path error
  | HTTPError string int string
  | UnableToExtract string error
  | UnableToCreateNewSecrets path error
  | UnableToCopySecrets path error
  | UnableToLinkSecrets path error
  | Panicked panic

text \<open>\<^verbatim>\<open>os.IsNotExist\<close> looks at the error itself; \<^verbatim>\<open>errors.As\<close> with a \<^verbatim>\<open>*os.PathError\<close>
  target follows the \<^verbatim>\<open>%w\<close> wrappers.\<close>

definition IsNotExist :: "error \<Rightarrow> bool" where
  "IsNotExist err =
     (case err of PathError _ _ e \<Rightarrow> e = ENOENT
                | LinkError _ _ _ e \<Rightarrow> e = ENOENT
                | _ \<Rightarrow> False)"

fun as_PathError :: "error \<Rightarrow> error option" where
  "as_PathError (PathError op' p e) = Some (PathError op' p e)"
| "as_PathError (UnableToCreate p err) = as_PathError err"
| "as_PathError (UnableToUpdateSecret p err) = as_PathError err"
| "as_PathError (UnableToReadNewSecrets err) = as_PathError err"
| "as_PathError (UnableToSetModifiedTime p err) = as_PathError err"
| "as_PathError (UnableToCreateNewSecrets p err) = as_PathError err"
| "as_PathError (UnableToCopySecrets p err) = as_PathError err"
| "as_PathError (UnableToLinkSecrets p err) = as_PathError err"
| "as_PathError _ = None"

subsection \<open>The filesystem and the trace of a run\<close>

text \<open>A flat namespace of paths. A directory is opaque (only its presence and its
  timestamp are kept).\<close>

datatype node =
    File (content: string) (mode: FileMode) (modtime: int)
  | Dir (modtime: int)

type_synonym filesystem = "path \<rightharpoonup> node"

text \<open>What a run does, in order: the two log lines that mark the phases of \<^verbatim>\<open>extract\<close>,
  every mutating system call (\<open>SysRemove\<close> with whether an entry was removed) and every
  change-hook started (file name, \<^verbatim>\<open>CONFIG_FILE\<close>, command).\<close>

datatype event =
    LogExtracting string
  | LogRemoving string
  | SysWriteFile path string FileMode
  | SysRename path path
  | SysRemove path bool
  | SysChtimes path int
  | RunHook string path "string list"

record world =
  fs :: filesystem
  events :: "event list"
  clock :: int

subsection \<open>The environment\<close>

record request =
  req_url :: string
  if_modified_since :: "int option"

text \<open>A response body is read with \<^verbatim>\<open>ioutil.ReadAll\<close>, which returns the bytes read and
  possibly an error.\<close>

record body =
  data :: string
  read_error :: "error option"

record response =
  StatusCode :: int
  Header_Date :: string
  Body :: body

text \<open>
  Everything the two files call and do not define is a field of the environment:
  \<^item> \<open>umask\<close>, and the faults the operating system may answer a call with besides those
    that follow from the nodes themselves (\<open>write_fault p = Some n\<close>: the write to \<open>p\<close>
    stops with an error after \<open>n\<close> bytes);
  \<^item> \<open>http_Do\<close>: \<^verbatim>\<open>client.Do\<close>; \<open>url_invalid\<close>: \<^verbatim>\<open>http.NewRequest\<close> fails;
  \<^item> \<open>time_Parse\<close>: \<^verbatim>\<open>time.Parse(time.RFC1123, _)\<close>;
  \<^item> \<open>Unmarshall\<close>: the bundle codec \<^verbatim>\<open>UnmarshallBuffer(crypto, buf, decrypt)\<close>, with the
    crypto handler of the cycle.
\<close>

record env =
  umask :: FileMode
  open_fault :: "path \<Rightarrow> bool"
  write_fault :: "path \<Rightarrow> nat option"
  rename_fault :: "path \<Rightarrow> path \<Rightarrow> bool"
  remove_fault :: "path \<Rightarrow> bool"
  chtimes_fault :: "path \<Rightarrow> bool"
  http_Do :: "request \<Rightarrow> error + response"
  url_invalid :: "string \<Rightarrow> bool"
  time_Parse :: "string \<Rightarrow> int option"
  Unmarshall :: "bool \<Rightarrow> string \<Rightarrow> error + ConfigStruct"

section \<open>Operating-system calls\<close>

definition emit :: "event \<Rightarrow> world \<Rightarrow> world" where
  "emit e w = w\<lparr>events := events w @ [e]\<rparr>"

definition os_Stat :: "path \<Rightarrow> world \<Rightarrow> error + node" where
  "os_Stat p w =
     (case fs w p of None \<Rightarrow> Inl (PathError ''stat'' p ENOENT) | Some n \<Rightarrow> Inr n)"

definition ioutil_ReadFile :: "path \<Rightarrow> world \<Rightarrow> error + string" where
  "ioutil_ReadFile p w =
     (case fs w p of
        None \<Rightarrow> Inl (PathError ''open'' p ENOENT)
      | Some (Dir _) \<Rightarrow> Inl (PathError ''read'' p EISDIR)
      | Some (File c _ _) \<Rightarrow> Inr c)"

text \<open>\<^verbatim>\<open>os.OpenFile\<close> for writing with \<^verbatim>\<open>O_CREATE\<close>, and with \<^verbatim>\<open>O_TRUNC\<close> when \<open>trunc\<close>: an
  absent file is created empty with \<open>pm\<close> less the umask; an existing file keeps its mode.\<close>

definition os_OpenFile :: "env \<Rightarrow> bool \<Rightarrow> path \<Rightarrow> FileMode \<Rightarrow> world \<Rightarrow> (error + unit) \<times> world" where
  "os_OpenFile E trunc p pm w =
     (case fs w p of
        Some (Dir _) \<Rightarrow> (Inl (PathError ''open'' p EISDIR), w)
      | Some (File c m t) \<Rightarrow>
          if open_fault E p then (Inl (PathError ''open'' p EACCES), w)
          else (Inr (), if trunc then w\<lparr>fs := (fs w)(p \<mapsto> File [] m (clock w))\<rparr> else w)
      | None \<Rightarrow>
          if open_fault E p then (Inl (PathError ''open'' p EACCES), w)
          else (Inr (), w\<lparr>fs := (fs w)(p \<mapsto> File [] (pm AND NOT (umask E)) (clock w))\<rparr>))"

text \<open>Writing \<open>d\<close> at offset 0 of the open file \<open>p\<close>: the bytes past \<open>d\<close> stay.\<close>

definition overwrite :: "string \<Rightarrow> string \<Rightarrow> string" where
  "overwrite d c = d @ drop (length d) c"

definition file_Write :: "env \<Rightarrow> path \<Rightarrow> string \<Rightarrow> world \<Rightarrow> (error + unit) \<times> world" where
  "file_Write E p d w =
     (case fs w p of
        Some (File c m t) \<Rightarrow>
          (case write_fault E p of
             Some n \<Rightarrow>
               (Inl (PathError ''write'' p EIO),
                w\<lparr>fs := (fs w)(p \<mapsto> File (overwrite (take n d) c) m (clock w))\<rparr>)
           | None \<Rightarrow> (Inr (), w\<lparr>fs := (fs w)(p \<mapsto> File (overwrite d c) m (clock w))\<rparr>))
      | _ \<Rightarrow> (Inl (PathError ''write'' p EIO), w))"

text \<open>\<^verbatim>\<open>ioutil.WriteFile\<close>: open with \<^verbatim>\<open>O_WRONLY|O_CREATE|O_TRUNC\<close>, write, close.\<close>

definition ioutil_WriteFile :: "env \<Rightarrow> path \<Rightarrow> string \<Rightarrow> FileMode \<Rightarrow> world \<Rightarrow> (error + unit) \<times> world" where
  "ioutil_WriteFile E p d pm w =
     (case os_OpenFile E True p pm (emit (SysWriteFile p d pm) w) of
        (Inl err, w1) \<Rightarrow> (Inl err, w1)
      | (Inr _, w1) \<Rightarrow> file_Write E p d w1)"

text \<open>\<^verbatim>\<open>os.Rename\<close>: the source must exist; a file replaces a file or takes a free path; a
  directory is not replaced, and does not replace a file.\<close>

definition os_Rename :: "env \<Rightarrow> path \<Rightarrow> path \<Rightarrow> world \<Rightarrow> (error + unit) \<times> world" where
  "os_Rename E src dst w0 =
     (let w = emit (SysRename src dst) w0 in
      case fs w src of
        None \<Rightarrow> (Inl (LinkError ''rename'' src dst ENOENT), w)
      | Some n \<Rightarrow>
          if rename_fault E src dst then (Inl (LinkError ''rename'' src dst EACCES), w)
          else (case fs w dst of
                  Some (Dir _) \<Rightarrow> (Inl (LinkError ''rename'' src dst EISDIR), w)
                | Some (File _ _ _) \<Rightarrow>
                    (case n of
                       Dir _ \<Rightarrow> (Inl (LinkError ''rename'' src dst ENOTDIR), w)
                     | File _ _ _ \<Rightarrow> (Inr (), w\<lparr>fs := ((fs w)(src := None))(dst \<mapsto> n)\<rparr>))
                | None \<Rightarrow> (Inr (), w\<lparr>fs := ((fs w)(src := None))(dst \<mapsto> n)\<rparr>)))"

text \<open>\<^verbatim>\<open>os.Remove\<close>: a missing path is the error that \<^verbatim>\<open>os.IsNotExist\<close> recognizes; what is
  there is removed unless the operating system refuses (\<open>remove_fault\<close>, which a directory
  that is not empty is a case of).\<close>

definition os_Remove :: "env \<Rightarrow> path \<Rightarrow> world \<Rightarrow> (error + unit) \<times> world" where
  "os_Remove E p w =
     (case fs w p of
        None \<Rightarrow> (Inl (PathError ''remove'' p ENOENT), emit (SysRemove p False) w)
      | Some n \<Rightarrow>
          if remove_fault E p
          then (Inl (PathError ''remove'' p EACCES), emit (SysRemove p False) w)
          else (Inr (), emit (SysRemove p True) (w\<lparr>fs := (fs w)(p := None)\<rparr>)))"

text \<open>\<^verbatim>\<open>os.Chtimes\<close>.\<close>

definition set_modtime :: "int \<Rightarrow> node \<Rightarrow> node" where
  "set_modtime t n = (case n of File c m _ \<Rightarrow> File c m t | Dir _ \<Rightarrow> Dir t)"

definition os_Chtimes :: "env \<Rightarrow> path \<Rightarrow> int \<Rightarrow> world \<Rightarrow> (error + unit) \<times> world" where
  "os_Chtimes E p t w0 =
     (let w = emit (SysChtimes p t) w0 in
      case fs w p of
        None \<Rightarrow> (Inl (PathError ''chtimes'' p ENOENT), w)
      | Some n \<Rightarrow>
          if chtimes_fault E p then (Inl (PathError ''chtimes'' p EACCES), w)
          else (Inr (), w\<lparr>fs := (fs w)(p \<mapsto> set_modtime t n)\<rparr>))"

text \<open>\<^verbatim>\<open>filepath.Join(dir, name)\<close> for a clean directory path and a clean relative name.\<close>

definition filepath_Join :: "path \<Rightarrow> string \<Rightarrow> path" where
  "filepath_Join dir name = dir @ ''/'' @ name"

section \<open>The agent\<close>

subsection \<open>\<^verbatim>\<open>idToBytes\<close>\<close>

text \<open>The loop overwrites the slice in place and remembers the first index whose digit
  is not zero; \<^verbatim>\<open>bytes[start:]\<close> panics when \<open>start\<close> is out of range.\<close>

definition idToBytes_step :: "nat \<Rightarrow> byte list \<times> int \<Rightarrow> byte list \<times> int" where
  "idToBytes_step idx st =
     (let bytes = fst st; start = snd st;
          char = bytes ! idx;
          bytes' = bytes[idx := char - of_char CHR ''0''];
          start' = (if bytes' ! idx \<noteq> 0 \<and> start = - 1 then int idx else start)
      in (bytes', start'))"

definition idToBytes :: "string \<Rightarrow> panic + byte list" where
  "idToBytes id' =
     (let bytes = map of_char id';
          (bytes', start) = fold idToBytes_step [0..<length bytes] (bytes, - 1)
      in if start < 0 \<or> int (length bytes') < start
         then Inl (SliceBoundsOutOfRange start)
         else Inr (drop (nat start) bytes'))"

subsection \<open>\<^verbatim>\<open>safeWrite\<close>, \<^verbatim>\<open>updateSecret\<close>, \<^verbatim>\<open>runOnChanged\<close>\<close>

definition tmp_of :: "path \<Rightarrow> path" where
  "tmp_of secretFile = secretFile @ ''.tmp''"

text \<open>\<^verbatim>\<open>0640\<close>, and \<^verbatim>\<open>0644\<close> of \<^verbatim>\<open>internal/app.go\<close>.\<close>

definition mode_0640 :: FileMode where "mode_0640 = 0b110100000"
definition mode_0644 :: FileMode where "mode_0644 = 0b110100100"

text \<open>The statements of \<^verbatim>\<open>safeWrite\<close> after the \<^verbatim>\<open>defer\<close>.\<close>

definition safeWrite_body :: "env \<Rightarrow> path \<Rightarrow> string \<Rightarrow> world \<Rightarrow> (error + unit) \<times> world" where
  "safeWrite_body E secretFile newContent w =
     (case ioutil_WriteFile E (tmp_of secretFile) newContent mode_0640 w of
        (Inl err, w') \<Rightarrow> (Inl (UnableToCreate (tmp_of secretFile) err), w')
      | (Inr _, w') \<Rightarrow>
          (case os_Rename E (tmp_of secretFile) secretFile w' of
             (Inl err, w'') \<Rightarrow> (Inl (UnableToUpdateSecret secretFile err), w'')
           | (Inr _, w'') \<Rightarrow> (Inr (), w'')))"

text \<open>The deferred \<^verbatim>\<open>os.Remove(tmp)\<close> runs on every return, its result dropped.\<close>

definition safeWrite :: "env \<Rightarrow> path \<Rightarrow> string \<Rightarrow> world \<Rightarrow> (error + unit) \<times> world" where
  "safeWrite E secretFile newContent w =
     (let (r, w1) = safeWrite_body E secretFile newContent w
      in (r, snd (os_Remove E (tmp_of secretFile) w1)))"

text \<open>\<^verbatim>\<open>updateSecret\<close> returns \<open>(false, nil)\<close> when the file reads without error and holds
  the new content, and \<open>(true, err)\<close> with the result of \<^verbatim>\<open>safeWrite\<close> otherwise; its caller
  looks at \<open>err\<close> first.\<close>

definition updateSecret :: "env \<Rightarrow> path \<Rightarrow> string \<Rightarrow> world \<Rightarrow> (error + bool) \<times> world" where
  "updateSecret E secretFile newContent w =
     (let write = (case safeWrite E secretFile newContent w of
                     (Inl err, w') \<Rightarrow> (Inl err, w')
                   | (Inr _, w') \<Rightarrow> (Inr True, w'))
      in case ioutil_ReadFile secretFile w of
           Inr curContent \<Rightarrow> if newContent = curContent then (Inr False, w) else write
         | Inl _ \<Rightarrow> write)"

text \<open>The hook is a process of its own; what it does to the files is outside this model,
  which records that it was started.\<close>

definition runOnChanged :: "string \<Rightarrow> path \<Rightarrow> string list \<Rightarrow> world \<Rightarrow> world" where
  "runOnChanged fname fullpath onChanged w =
     (if length onChanged > 0 then emit (RunHook fname fullpath onChanged) w else w)"

subsection \<open>\<^verbatim>\<open>extract\<close>\<close>

text \<open>The first loop, over \<open>config.next\<close>, with the set \<open>all_fname\<close> it fills.\<close>

fun extract_next :: "env \<Rightarrow> App \<Rightarrow> ConfigStruct \<Rightarrow> string list \<Rightarrow> world \<Rightarrow> (error + string list) \<times> world" where
  "extract_next E a [] all_fname w = (Inr all_fname, w)"
| "extract_next E a ((fname, cfgFile) # rest) all_fname w =
     (let w1 = emit (LogExtracting fname) w;
          fullpath = filepath_Join (SecretsDir a) fname
      in case updateSecret E fullpath (Value cfgFile) w1 of
           (Inl err, w2) \<Rightarrow> (Inl err, w2)
         | (Inr changed, w2) \<Rightarrow>
             extract_next E a rest (fname # all_fname)
               (if changed then runOnChanged fname fullpath (OnChanged cfgFile) w2 else w2))"

text \<open>The second loop, over \<open>config.prev\<close>: a name of \<open>all_fname\<close> is skipped; a removal
  that fails is returned unless the file was not there.\<close>

fun extract_prev :: "env \<Rightarrow> App \<Rightarrow> string list \<Rightarrow> ConfigStruct \<Rightarrow> world \<Rightarrow> (error + unit) \<times> world" where
  "extract_prev E a all_fname [] w = (Inr (), w)"
| "extract_prev E a all_fname ((fname, cfgFile) # rest) w =
     (if fname \<in> set all_fname then extract_prev E a all_fname rest w
      else
        (let w1 = emit (LogRemoving fname) w;
             fullpath = filepath_Join (SecretsDir a) fname
         in case os_Remove E fullpath w1 of
              (Inl err, w2) \<Rightarrow>
                if \<not> IsNotExist err then (Inl err, w2)
                else extract_prev E a all_fname rest
                       (runOnChanged fname fullpath (OnChanged cfgFile) w2)
            | (Inr _, w2) \<Rightarrow>
                extract_prev E a all_fname rest
                  (runOnChanged fname fullpath (OnChanged cfgFile) w2)))"

text \<open>The method \<^verbatim>\<open>(a *App) extract\<close>: the secrets directory must exist; then the two loops,
  the second one only when \<open>config.prev\<close> is not nil.\<close>

definition App_extract :: "env \<Rightarrow> App \<Rightarrow> configSnapshot \<Rightarrow> world \<Rightarrow> (error + unit) \<times> world" where
  "App_extract E a config w =
     (case os_Stat (SecretsDir a) w of
        Inl err \<Rightarrow> (Inl err, w)
      | Inr _ \<Rightarrow>
          (case extract_next E a (next config) [] w of
             (Inl err, w1) \<Rightarrow> (Inl err, w1)
           | (Inr all_fname, w1) \<Rightarrow>
               (case prev config of
                  None \<Rightarrow> (Inr (), w1)
                | Some p \<Rightarrow> extract_prev E a all_fname p w1)))"

subsection \<open>\<^verbatim>\<open>checkin\<close>\<close>

text \<open>The request: \<^verbatim>\<open>If-Modified-Since\<close> is set from the persisted bundle's timestamp when
  \<^verbatim>\<open>os.Stat\<close> finds it.\<close>

definition build_request :: "App \<Rightarrow> world \<Rightarrow> request" where
  "build_request a w =
     \<lparr>req_url = configUrl a,
      if_modified_since =
        (case os_Stat (EncryptedConfig a) w of Inr fi \<Rightarrow> Some (modtime fi) | Inl _ \<Rightarrow> None)\<rparr>"

definition ioutil_ReadAll :: "body \<Rightarrow> string \<times> error option" where
  "ioutil_ReadAll b = (data b, read_error b)"

text \<open>Modelled from the spec: \<^verbatim>\<open>UnmarshallFile\<close> is declared outside the two source files.
  It decodes the bytes of the file at \<open>p\<close> as \<^verbatim>\<open>UnmarshallBuffer\<close> does; a file that cannot be
  read is the \<^verbatim>\<open>*os.PathError\<close> of the read.\<close>

definition UnmarshallFile :: "env \<Rightarrow> bool \<Rightarrow> path \<Rightarrow> world \<Rightarrow> error + ConfigStruct" where
  "UnmarshallFile E decrypt p w =
     (case ioutil_ReadFile p w of Inl err \<Rightarrow> Inl err | Inr buf \<Rightarrow> Unmarshall E decrypt buf)"

text \<open>Lines 312 to 318: the previous bundle, decoded without decrypting; a file that
  does not exist is no previous bundle, any other error is returned.\<close>

definition load_prev :: "env \<Rightarrow> App \<Rightarrow> world \<Rightarrow> error + ConfigStruct option" where
  "load_prev E a w =
     (case UnmarshallFile E False (EncryptedConfig a) w of
        Inr cfg \<Rightarrow> Inr (Some cfg)
      | Inl err \<Rightarrow>
          (case as_PathError err of
             Some perr \<Rightarrow> if IsNotExist perr then Inr None else Inl err
           | None \<Rightarrow> Inl err))"

text \<open>The branch of \<^verbatim>\<open>checkin\<close> for status 200, from the body read.\<close>

definition checkin_200 :: "env \<Rightarrow> App \<Rightarrow> response \<Rightarrow> world \<Rightarrow> (error + unit) \<times> world" where
  "checkin_200 E a res w =
     (case ioutil_ReadAll (Body res) of
        (_, Some err) \<Rightarrow> (Inl (UnableToReadNewSecrets err), w)
      | (body, None) \<Rightarrow>
          (case Unmarshall E True body of
             Inl err \<Rightarrow> (Inl err, w)
           | Inr nxt \<Rightarrow>
               (case load_prev E a w of
                  Inl err \<Rightarrow> (Inl err, w)
                | Inr prv \<Rightarrow>
                    (case App_extract E a \<lparr>prev = prv, next = nxt\<rparr> w of
                       (Inl err, w1) \<Rightarrow> (Inl err, w1)
                     | (Inr _, w1) \<Rightarrow>
                         (case safeWrite E (EncryptedConfig a) body w1 of
                            (Inl err, w2) \<Rightarrow> (Inl err, w2)
                          | (Inr _, w2) \<Rightarrow>
                              (let mtime =
                                     (case time_Parse E (Header_Date res) of
                                        Some t \<Rightarrow> t
                                      | None \<Rightarrow> clock w2)
                               in case os_Chtimes E (EncryptedConfig a) mtime w2 of
                                    (Inl err, w3) \<Rightarrow>
                                      (Inl (UnableToSetModifiedTime (EncryptedConfig a) err), w3)
                                  | (Inr _, w3) \<Rightarrow> (Inr (), w3)))))))"

definition checkin :: "env \<Rightarrow> App \<Rightarrow> world \<Rightarrow> (error + unit) \<times> world" where
  "checkin E a w =
     (if url_invalid E (configUrl a) then (Inl (External ''http.NewRequest''), w)
      else
        (case http_Do E (build_request a w) of
           Inl err \<Rightarrow> (Inl (UnableToGet (configUrl a) err), w)
         | Inr res \<Rightarrow>
             if StatusCode res = 200 then checkin_200 E a res w
             else if StatusCode res = 304 then (Inl NotModifiedError, w)
             else if StatusCode res = 204 then (Inl NotModifiedError, w)
             else (let (msg, _) = ioutil_ReadAll (Body res)
                   in (Inl (HTTPError (configUrl a) (StatusCode res) msg), w))))"

section \<open>The file \<^verbatim>\<open>internal/app.go\<close>\<close>

text \<open>\<^verbatim>\<open>Extract\<close>: every entry of the persisted bundle is written in place with
  \<^verbatim>\<open>ioutil.WriteFile(_, _, 0644)\<close>.\<close>

fun app_Extract_loop :: "env \<Rightarrow> App \<Rightarrow> ConfigStruct \<Rightarrow> world \<Rightarrow> (error + unit) \<times> world" where
  "app_Extract_loop E a [] w = (Inr (), w)"
| "app_Extract_loop E a ((fname, cfgFile) # rest) w =
     (case ioutil_WriteFile E (filepath_Join (SecretsDir a) fname) (Value cfgFile) mode_0644
             (emit (LogExtracting fname) w) of
        (Inl err, w1) \<Rightarrow> (Inl (UnableToExtract fname err), w1)
      | (Inr _, w1) \<Rightarrow> app_Extract_loop E a rest w1)"

definition app_Extract :: "env \<Rightarrow> App \<Rightarrow> world \<Rightarrow> (error + unit) \<times> world" where
  "app_Extract E a w =
     (case os_Stat (SecretsDir a) w of
        Inl err \<Rightarrow> (Inl err, w)
      | Inr _ \<Rightarrow>
          (case UnmarshallFile E True (EncryptedConfig a) w of
             Inl err \<Rightarrow> (Inl err, w)
           | Inr config \<Rightarrow> app_Extract_loop E a config w))"

text \<open>\<^verbatim>\<open>safeWrite(input, path)\<close>: \<^verbatim>\<open>os.OpenFile(safepath, O_RDWR|O_CREATE, 0644)\<close>, \<^verbatim>\<open>io.Copy\<close>
  from the response body, \<^verbatim>\<open>os.Rename\<close>. Nothing removes \<open>safepath\<close>.\<close>

definition app_safeWrite :: "env \<Rightarrow> body \<Rightarrow> path \<Rightarrow> world \<Rightarrow> (error + unit) \<times> world" where
  "app_safeWrite E input p w =
     (let safepath = tmp_of p in
      case os_OpenFile E False safepath mode_0644 (emit (SysWriteFile safepath (data input) mode_0644) w) of
        (Inl err, w1) \<Rightarrow> (Inl (UnableToCreateNewSecrets p err), w1)
      | (Inr _, w1) \<Rightarrow>
          (case file_Write E safepath (data input) w1 of
             (Inl err, w2) \<Rightarrow> (Inl (UnableToCopySecrets p err), w2)
           | (Inr _, w2) \<Rightarrow>
               (case read_error input of
                  Some err \<Rightarrow> (Inl (UnableToCopySecrets p err), w2)
                | None \<Rightarrow>
                    (case os_Rename E safepath p w2 of
                       (Inl err, w3) \<Rightarrow> (Inl (UnableToLinkSecrets p err), w3)
                     | (Inr _, w3) \<Rightarrow> (Inr (), w3)))))"

text \<open>\<^verbatim>\<open>CheckIn\<close>: the error of \<^verbatim>\<open>http.NewRequest\<close> is dropped, so an invalid URL leaves a
  nil request, which the next use dereferences.\<close>

definition app_CheckIn :: "env \<Rightarrow> App \<Rightarrow> world \<Rightarrow> (error + unit) \<times> world" where
  "app_CheckIn E a w =
     (if url_invalid E (configUrl a) then (Inl (Panicked NilPointerDereference), w)
      else
        (case http_Do E (build_request a w) of
           Inl err \<Rightarrow> (Inl (UnableToGet (configUrl a) err), w)
         | Inr res \<Rightarrow>
             if StatusCode res = 200 then
               (case app_safeWrite E (Body res) (EncryptedConfig a) w of
                  (Inl err, w1) \<Rightarrow> (Inl err, w1)
                | (Inr _, w1) \<Rightarrow> app_Extract E a w1)
             else if StatusCode res = 304 then (Inl NotModifiedError, w)
             else (let (msg, _) = ioutil_ReadAll (Body res)
                   in (Inl (HTTPError (configUrl a) (StatusCode res) msg), w))))"

section \<open>Notions for the statements\<close>

text \<open>The node an atomic replace of \<open>p\<close> leaves at \<open>p\<close>: the new content, the time of
  the write, and the mode of the temporary file, which is that of a stale \<open><p>.tmp\<close> when
  one was there and \<^verbatim>\<open>0640\<close> less the umask otherwise.\<close>

definition written_node :: "env \<Rightarrow> world \<Rightarrow> path \<Rightarrow> string \<Rightarrow> node" where
  "written_node E w p c =
     File c (case fs w (tmp_of p) of Some (File _ m _) \<Rightarrow> m | _ \<Rightarrow> mode_0640 AND NOT (umask E))
       (clock w)"

text \<open>The \<open>fullpath\<close> of an entry.\<close>

abbreviation secret_path :: "App \<Rightarrow> string \<Rightarrow> path" where
  "secret_path a fname \<equiv> filepath_Join (SecretsDir a) fname"

text \<open>The content of the regular file at \<open>p\<close>, if there is one: what \<^verbatim>\<open>ioutil.ReadFile\<close>
  returns when it returns no error.\<close>

definition on_disk :: "world \<Rightarrow> path \<Rightarrow> string option" where
  "on_disk w p = (case fs w p of Some (File c _ _) \<Rightarrow> Some c | _ \<Rightarrow> None)"


text \<open>What \<^verbatim>\<open>runOnChanged\<close> adds to the trace for an entry.\<close>

definition hook_events :: "App \<Rightarrow> string \<times> ConfigFile \<Rightarrow> event list" where
  "hook_events a e =
     (if OnChanged (snd e) = [] then []
      else [RunHook (fst e) (secret_path a (fst e)) (OnChanged (snd e))])"


text \<open>What the second loop adds to the trace for an entry it removes in the world \<open>w\<close>.\<close>

definition removal_events :: "App \<Rightarrow> world \<Rightarrow> string \<times> ConfigFile \<Rightarrow> event list" where
  "removal_events a w e =
     [LogRemoving (fst e), SysRemove (secret_path a (fst e)) (fs w (secret_path a (fst e)) \<noteq> None)]
     @ hook_events a e"


text \<open>The world after an entry that the second loop got through without error.\<close>

definition removal_world :: "App \<Rightarrow> string list \<Rightarrow> string \<times> ConfigFile \<Rightarrow> world \<Rightarrow> world" where
  "removal_world a all_fname e w =
     (if fst e \<in> set all_fname then w
      else w\<lparr>fs := (fs w)(secret_path a (fst e) := None),
             events := events w @ removal_events a w e\<rparr>)"

text \<open>The entries of \<open>prev\<close> (none for the nil map), and those of them whose name is not
  in \<open>next\<close>.\<close>

definition prev_entries :: "configSnapshot \<Rightarrow> ConfigStruct" where
  "prev_entries config = (case prev config of None \<Rightarrow> [] | Some p \<Rightarrow> p)"





text \<open>The system calls that change what is at \<open>p\<close>: a write to it, a rename from or onto
  it, a removal that removed it, a change of its times; and how many of them a trace holds.\<close>

definition touches :: "path \<Rightarrow> event \<Rightarrow> bool" where
  "touches p e =
     (case e of
        SysWriteFile q _ _ \<Rightarrow> q = p
      | SysRename s d \<Rightarrow> s = p \<or> d = p
      | SysRemove q b \<Rightarrow> q = p \<and> b
      | SysChtimes q _ \<Rightarrow> q = p
      | _ \<Rightarrow> False)"


text \<open>The events of the first loop for the entries \<open>names\<close>, and those of the second loop.\<close>

definition update_event :: "App \<Rightarrow> string list \<Rightarrow> event \<Rightarrow> bool" where
  "update_event a names ev =
     (case ev of
        LogExtracting g \<Rightarrow> g \<in> set names
      | SysWriteFile q c m \<Rightarrow> (\<exists>g\<in>set names. q = tmp_of (secret_path a g))
      | SysRename s d \<Rightarrow> (\<exists>g\<in>set names. s = tmp_of (secret_path a g) \<and> d = secret_path a g)
      | SysRemove q b \<Rightarrow> (\<exists>g\<in>set names. q = tmp_of (secret_path a g))
      | RunHook g p cmd \<Rightarrow> g \<in> set names \<and> p = secret_path a g
      | _ \<Rightarrow> False)"

definition removal_event :: "App \<Rightarrow> string list \<Rightarrow> event \<Rightarrow> bool" where
  "removal_event a names ev =
     (case ev of
        LogRemoving g \<Rightarrow> g \<in> set names
      | SysRemove q b \<Rightarrow> (\<exists>g\<in>set names. q = secret_path a g)
      | RunHook g p cmd \<Rightarrow> g \<in> set names \<and> p = secret_path a g
      | _ \<Rightarrow> False)"

text \<open>The value of a digit, as the loop of \<^verbatim>\<open>idToBytes\<close> computes it.\<close>

definition digit :: "byte \<Rightarrow> byte" where
  "digit b = b - of_char CHR ''0''"

subsection \<open>A device, for the concrete runs\<close>

text \<open>A codec that knows two bundles, \<open>B0\<close> and \<open>B1\<close>; a server that answers every request
  with \<open>res\<close>; an operating system with umask \<^verbatim>\<open>022\<close> and no fault; a secrets directory as
  bundle \<open>B0\<close> left it.\<close>

definition ex_codec :: "bool \<Rightarrow> string \<Rightarrow> error + ConfigStruct" where
  "ex_codec decrypt buf =
     (if buf = ''B1'' then
        Inr [(''a.conf'', \<lparr>Value = (if decrypt then ''secretA'' else ''E(secretA)''), OnChanged = []\<rparr>),
             (''b.conf'', \<lparr>Value = (if decrypt then ''secretB'' else ''E(secretB)''), OnChanged = [''/bin/true'']\<rparr>),
             (''d.conf'', \<lparr>Value = (if decrypt then ''same'' else ''E(same)''), OnChanged = [''/bin/d'']\<rparr>)]
      else if buf = ''B0'' then
        Inr [(''a.conf'', \<lparr>Value = (if decrypt then ''old'' else ''E(old)''), OnChanged = []\<rparr>),
             (''c.conf'', \<lparr>Value = (if decrypt then ''secretC'' else ''E(secretC)''), OnChanged = [''/bin/c'']\<rparr>),
             (''d.conf'', \<lparr>Value = (if decrypt then ''same'' else ''E(same)''), OnChanged = [''/bin/d'']\<rparr>)]
      else Inl (External ''bad bundle''))"

definition ex_response :: "int \<Rightarrow> string \<Rightarrow> response" where
  "ex_response st b =
     \<lparr>StatusCode = st, Header_Date = ''Mon, 02 Jan 2006 15:04:05 GMT'',
      Body = \<lparr>data = b, read_error = None\<rparr>\<rparr>"

definition ex_env :: "response \<Rightarrow> env" where
  "ex_env res =
     \<lparr>umask = 0b000010010, open_fault = (\<lambda>_. False), write_fault = (\<lambda>_. None),
      rename_fault = (\<lambda>_ _. False), remove_fault = (\<lambda>_. False), chtimes_fault = (\<lambda>_. False),
      http_Do = (\<lambda>_. Inr res), url_invalid = (\<lambda>_. False),
      time_Parse = (\<lambda>s. if s = ''Mon, 02 Jan 2006 15:04:05 GMT'' then Some 1136214245 else None),
      Unmarshall = ex_codec\<rparr>"

definition ex_app :: App where
  "ex_app = \<lparr>EncryptedConfig = ''/var/sota/config.encrypted'', SecretsDir = ''/run/secrets'',
             configUrl = ''https://ota/config''\<rparr>"

definition ex_world :: world where
  "ex_world =
     \<lparr>fs = [''/run/secrets'' \<mapsto> Dir 5,
             ''/var/sota/config.encrypted'' \<mapsto> File ''B0'' mode_0640 100,
             ''/run/secrets/a.conf'' \<mapsto> File ''old'' mode_0640 100,
             ''/run/secrets/c.conf'' \<mapsto> File ''secretC'' mode_0640 100,
             ''/run/secrets/d.conf'' \<mapsto> File ''same'' mode_0640 100],
      events = [], clock = 1136214999\<rparr>"

text \<open>An empty secrets directory beside the persisted bundle \<open>B1\<close>.\<close>

definition ex_fresh_world :: world where
  "ex_fresh_world =
     \<lparr>fs = [''/run/secrets'' \<mapsto> Dir 5,
             ''/var/sota/config.encrypted'' \<mapsto> File ''B1'' mode_0640 100],
      events = [], clock = 1136214999\<rparr>"




text \<open>A secrets directory that has become read-only, with the temporary file of an
  earlier run still in it: the file can be written, but neither renamed nor removed.\<close>

definition ex_stale_world :: world where
  "ex_stale_world =
     ex_world\<lparr>fs := (fs ex_world)(''/run/secrets/a.conf.tmp'' \<mapsto> File ''stale'' mode_0640 50)\<rparr>"

definition ex_refusing_env :: env where
  "ex_refusing_env =
     (ex_env (ex_response 200 ''B1''))
       \<lparr>rename_fault := (\<lambda>src dst. src = ''/run/secrets/a.conf.tmp''),
        remove_fault := (\<lambda>p. p = ''/run/secrets/a.conf.tmp'')\<rparr>"

text \<open>An operating system on which the write to one temporary file stops after 3 bytes.\<close>

definition ex_faulty_env :: env where
  "ex_faulty_env =
     (ex_env (ex_response 200 ''B1''))
       \<lparr>write_fault := (\<lambda>p. if p = ''/run/secrets/a.conf.tmp'' then Some 3 else None)\<rparr>"

section \<open>System calls and the atomic write\<close>

lemmas os_defs = emit_def os_Stat_def ioutil_ReadFile_def os_OpenFile_def file_Write_def
  ioutil_WriteFile_def os_Rename_def os_Remove_def os_Chtimes_def overwrite_def

lemma tmp_of_neq [simp]: "tmp_of p \<noteq> p" "p \<noteq> tmp_of p"
  by (simp_all add: tmp_of_def)

lemma WriteFile_Inr:
  assumes "ioutil_WriteFile E p d pm w = (Inr u, w')"
  shows "w' = w\<lparr>fs := (fs w)(p \<mapsto> File d (case fs w p of Some (File _ m _) \<Rightarrow> m | _ \<Rightarrow> pm AND NOT (umask E)) (clock w)),
               events := events w @ [SysWriteFile p d pm]\<rparr>"
  using assms
  by (auto simp: os_defs split: option.splits node.splits if_splits)

lemma Rename_Inr:
  assumes "os_Rename E src dst w = (Inr u, w')"
  shows "\<exists>n. fs w src = Some n \<and> w' = w\<lparr>fs := ((fs w)(src := None))(dst \<mapsto> n), events := events w @ [SysRename src dst]\<rparr>"
  using assms
  by (auto simp: os_defs Let_def split: option.splits node.splits if_splits)

lemma Remove_absent:
  "fs w p = None \<Longrightarrow> os_Remove E p w = (Inl (PathError ''remove'' p ENOENT), w\<lparr>events := events w @ [SysRemove p False]\<rparr>)"
  by (simp add: os_defs)

lemma safeWrite_Inr:
  assumes "safeWrite E p c w = (Inr u, w')"
  shows "w' = w\<lparr>fs := ((fs w)(tmp_of p := None))(p \<mapsto> written_node E w p c),
               events := events w @ [SysWriteFile (tmp_of p) c mode_0640, SysRename (tmp_of p) p, SysRemove (tmp_of p) False]\<rparr>"
proof -
  obtain r1 w1 where wf: "ioutil_WriteFile E (tmp_of p) c mode_0640 w = (r1, w1)"
    by (cases "ioutil_WriteFile E (tmp_of p) c mode_0640 w")
  from assms wf obtain u1 where r1: "r1 = Inr u1"
    by (cases r1) (auto simp: safeWrite_def safeWrite_body_def Let_def split: prod.splits sum.splits)
  obtain r2 w2 where rn: "os_Rename E (tmp_of p) p w1 = (r2, w2)"
    by (cases "os_Rename E (tmp_of p) p w1")
  from assms wf r1 rn obtain u2 where r2: "r2 = Inr u2"
    by (cases r2) (auto simp: safeWrite_def safeWrite_body_def Let_def split: prod.splits sum.splits)
  from assms wf r1 rn r2 have w': "w' = snd (os_Remove E (tmp_of p) w2)"
    by (auto simp: safeWrite_def safeWrite_body_def Let_def split: prod.splits sum.splits)
  note W = WriteFile_Inr[OF wf[unfolded r1]]
  from Rename_Inr[OF rn[unfolded r2]] obtain n where
    n: "fs w1 (tmp_of p) = Some n" and
    w2: "w2 = w1\<lparr>fs := ((fs w1)(tmp_of p := None))(p \<mapsto> n), events := events w1 @ [SysRename (tmp_of p) p]\<rparr>"
    by blast
  have abs: "fs w2 (tmp_of p) = None" by (simp add: w2)
  show ?thesis
    using n unfolding w' Remove_absent[OF abs] 
    by (simp add: w2 W written_node_def fun_upd_twist)
qed

lemma OpenFile_frame:
  assumes "os_OpenFile E tr p pm w = (r, w')"
  shows "events w' = events w" "clock w' = clock w" "q \<noteq> p \<Longrightarrow> fs w' q = fs w q"
  using assms by (auto simp: os_defs split: option.splits node.splits if_splits)

lemma file_Write_frame:
  assumes "file_Write E p d w = (r, w')"
  shows "events w' = events w" "clock w' = clock w" "q \<noteq> p \<Longrightarrow> fs w' q = fs w q"
  using assms by (auto simp: os_defs split: option.splits node.splits if_splits)

lemma WriteFile_frame:
  assumes "ioutil_WriteFile E p d pm w = (r, w')"
  shows "events w' = events w @ [SysWriteFile p d pm]" "clock w' = clock w"
    "q \<noteq> p \<Longrightarrow> fs w' q = fs w q"
proof -
  obtain r1 w1 where o: "os_OpenFile E True p pm (emit (SysWriteFile p d pm) w) = (r1, w1)"
    by (cases "os_OpenFile E True p pm (emit (SysWriteFile p d pm) w)")
  note O = OpenFile_frame[OF o]
  show "events w' = events w @ [SysWriteFile p d pm]"
    using assms o O(1) file_Write_frame(1)[of E p d w1]
    by (cases r1) (auto simp: ioutil_WriteFile_def emit_def)
  show "clock w' = clock w"
    using assms o O(2) file_Write_frame(2)[of E p d w1]
    by (cases r1) (auto simp: ioutil_WriteFile_def emit_def)
  show "fs w' q = fs w q" if "q \<noteq> p"
    using that assms o O(3)[of q] file_Write_frame(3)[of E p d w1 _ _ q]
    by (cases r1) (auto simp: ioutil_WriteFile_def emit_def)
qed

lemma Rename_frame:
  assumes "os_Rename E src dst w = (r, w')"
  shows "events w' = events w @ [SysRename src dst]" "clock w' = clock w"
    "q \<noteq> src \<Longrightarrow> q \<noteq> dst \<Longrightarrow> fs w' q = fs w q"
  using assms by (auto simp: os_defs Let_def split: option.splits node.splits if_splits)

lemma Remove_frame:
  assumes "os_Remove E p w = (r, w')"
  shows "\<exists>b. events w' = events w @ [SysRemove p b]" "clock w' = clock w"
    "q \<noteq> p \<Longrightarrow> fs w' q = fs w q"
  using assms by (auto simp: os_defs split: option.splits if_splits)

lemma Remove_gone:
  assumes "os_Remove E p w = (r, w')" "\<not> remove_fault E p"
  shows "fs w' p = None"
  using assms by (auto simp: os_defs split: option.splits if_splits)

lemma safeWrite_alt:
  "safeWrite E p c w = (fst (safeWrite_body E p c w), snd (os_Remove E (tmp_of p) (snd (safeWrite_body E p c w))))"
  by (simp add: safeWrite_def safeWrite_body_def Let_def split: prod.splits)

lemma safeWrite_body_frame:
  assumes "safeWrite_body E p c w = (r, w')"
  shows "clock w' = clock w" "q \<noteq> p \<Longrightarrow> q \<noteq> tmp_of p \<Longrightarrow> fs w' q = fs w q"
    "\<exists>evs. events w' = events w @ SysWriteFile (tmp_of p) c mode_0640 # evs \<and> (evs = [] \<or> evs = [SysRename (tmp_of p) p])"
proof -
  obtain r1 w1 where wf: "ioutil_WriteFile E (tmp_of p) c mode_0640 w = (r1, w1)"
    by (cases "ioutil_WriteFile E (tmp_of p) c mode_0640 w")
  obtain r2 w2 where rn: "os_Rename E (tmp_of p) p w1 = (r2, w2)"
    by (cases "os_Rename E (tmp_of p) p w1")
  note W = WriteFile_frame[OF wf] and R = Rename_frame[OF rn]
  show "clock w' = clock w"
    using assms wf rn W(2) R(2) by (auto simp: safeWrite_body_def split: sum.splits)
  show "fs w' q = fs w q" if "q \<noteq> p" "q \<noteq> tmp_of p"
    using that assms wf rn W(3)[of q] R(3)[of q] by (auto simp: safeWrite_body_def split: sum.splits)
  show "\<exists>evs. events w' = events w @ SysWriteFile (tmp_of p) c mode_0640 # evs \<and> (evs = [] \<or> evs = [SysRename (tmp_of p) p])"
    using assms wf rn W(1) R(1) by (auto simp: safeWrite_body_def split: sum.splits)
qed

lemma safeWrite_frame:
  assumes "safeWrite E p c w = (r, w')"
  shows "clock w' = clock w" "q \<noteq> p \<Longrightarrow> q \<noteq> tmp_of p \<Longrightarrow> fs w' q = fs w q"
proof -
  obtain r1 w1 where b: "safeWrite_body E p c w = (r1, w1)"
    by (cases "safeWrite_body E p c w")
  obtain r2 w2 where rm: "os_Remove E (tmp_of p) w1 = (r2, w2)"
    by (cases "os_Remove E (tmp_of p) w1")
  have w': "w' = w2" using assms b rm by (simp add: safeWrite_alt)
  show "clock w' = clock w"
    using safeWrite_body_frame(1)[OF b] Remove_frame(2)[OF rm] w' by simp
  show "fs w' q = fs w q" if "q \<noteq> p" "q \<noteq> tmp_of p"
    using that safeWrite_body_frame(2)[OF b] Remove_frame(3)[OF rm] w' by simp
qed

lemma safeWrite_events:
  assumes "safeWrite E p c w = (r, w')"
  shows "\<exists>evs b. events w' = events w @ SysWriteFile (tmp_of p) c mode_0640 # evs @ [SysRemove (tmp_of p) b]
           \<and> (evs = [] \<or> evs = [SysRename (tmp_of p) p])"
proof -
  obtain r1 w1 where b: "safeWrite_body E p c w = (r1, w1)"
    by (cases "safeWrite_body E p c w")
  obtain r2 w2 where rm: "os_Remove E (tmp_of p) w1 = (r2, w2)"
    by (cases "os_Remove E (tmp_of p) w1")
  have w': "w' = w2" using assms b rm by (simp add: safeWrite_alt)
  from safeWrite_body_frame(3)[OF b] Remove_frame(1)[OF rm] show ?thesis
    unfolding w' by auto
qed

text \<open>
  C10, as amended. For every target path and content, when \<^verbatim>\<open>safeWrite\<close> returns, with nil or
  with an error, and the operating system has not refused the removal of \<open><path>.tmp\<close>,
  nothing is left at that path: the last call made is its removal, and on success the
  temporary file has been renamed over the target, which holds the new content. The removal
  is the deferred \<^verbatim>\<open>os.Remove\<close>, whose own result the code drops; where it is refused the
  path stays.
\<close>

theorem safeWrite_removes_tmp:
  assumes "\<not> remove_fault E (tmp_of p)" and "safeWrite E p c w = (r, w')"
  shows "fs w' (tmp_of p) = None
       \<and> (\<exists>b. last (events w') = SysRemove (tmp_of p) b)
       \<and> (r = Inr () \<longrightarrow> fs w' p = Some (written_node E w p c)
                          \<and> SysRename (tmp_of p) p \<in> set (events w'))"
proof -
  obtain r1 w1 where b: "safeWrite_body E p c w = (r1, w1)"
    by (cases "safeWrite_body E p c w")
  obtain r2 w2 where rm: "os_Remove E (tmp_of p) w1 = (r2, w2)"
    by (cases "os_Remove E (tmp_of p) w1")
  have w': "w' = w2" using assms(2) b rm by (simp add: safeWrite_alt)
  have 1: "fs w' (tmp_of p) = None"
    using Remove_gone[OF rm assms(1)] w' by simp
  have 2: "\<exists>b. last (events w') = SysRemove (tmp_of p) b"
    using safeWrite_events[OF assms(2)] by auto
  have 3: "fs w' p = Some (written_node E w p c) \<and> SysRename (tmp_of p) p \<in> set (events w')"
    if "r = Inr ()"
    using safeWrite_Inr[of E p c w "()" w'] assms(2) that by simp
  from 1 2 3 show ?thesis by blast
qed

section \<open>One entry of the first loop\<close>


lemma tmp_of_inj [simp]: "tmp_of p = tmp_of q \<longleftrightarrow> p = q"
  by (simp add: tmp_of_def)


lemma Join_neq_dir [simp]:
  "filepath_Join d f \<noteq> d" "tmp_of (filepath_Join d f) \<noteq> d"
  "d \<noteq> filepath_Join d f" "d \<noteq> tmp_of (filepath_Join d f)"
  by (simp_all add: filepath_Join_def tmp_of_def)



lemma written_node_events [simp]: "written_node E (w\<lparr>events := evs\<rparr>) p c = written_node E w p c"
  by (simp add: written_node_def)

lemma on_disk_events [simp]: "on_disk (w\<lparr>events := evs\<rparr>) p = on_disk w p"
  by (simp add: on_disk_def)

text \<open>One entry of the first loop.\<close>

lemma updateSecret_alt:
  "updateSecret E p c w =
     (if ioutil_ReadFile p w = Inr c then (Inr False, w)
      else (case safeWrite E p c w of
              (Inl err, w') \<Rightarrow> (Inl err, w')
            | (Inr _, w') \<Rightarrow> (Inr True, w')))"
  by (auto simp: updateSecret_def Let_def split: sum.splits)



lemma updateSecret_frame:
  assumes "updateSecret E p c w = (r, w')"
  shows "clock w' = clock w" "q \<noteq> p \<Longrightarrow> q \<noteq> tmp_of p \<Longrightarrow> fs w' q = fs w q"
proof -
  obtain r1 w1 where s: "safeWrite E p c w = (r1, w1)" by (cases "safeWrite E p c w")
  show "clock w' = clock w"
    using assms s safeWrite_frame(1)[OF s]
    by (cases r1) (auto simp: updateSecret_alt split: if_splits)
  show "fs w' q = fs w q" if "q \<noteq> p" "q \<noteq> tmp_of p"
    using that assms s safeWrite_frame(2)[OF s]
    by (cases r1) (auto simp: updateSecret_alt split: if_splits)
qed



section \<open>The first loop of \<^verbatim>\<open>extract\<close>\<close>













section \<open>The second loop of \<^verbatim>\<open>extract\<close>\<close>






lemma removal_world_frame:
  "clock (removal_world a names e w) = clock w"
  "q \<noteq> secret_path a (fst e) \<Longrightarrow> fs (removal_world a names e w) q = fs w q"
  "fst e \<in> set names \<Longrightarrow> removal_world a names e w = w"
  by (simp_all add: removal_world_def)


lemma fold_removal_world_clock: "clock (fold (removal_world a names) P w) = clock w"
  by (induction P arbitrary: w) (simp_all add: removal_world_frame)




section \<open>Counting in the trace\<close>








lemma touches_hook_events [simp]: "filter (touches p) (hook_events a e) = []"
  by (simp add: hook_events_def touches_def)




section \<open>What a run of \<^verbatim>\<open>extract\<close> has done\<close>












section \<open>Applying a bundle twice\<close>







section \<open>The two phases of \<^verbatim>\<open>extract\<close>\<close>


lemma removal_event_mono:
  "set names \<subseteq> set names' \<Longrightarrow> removal_event a names ev \<Longrightarrow> removal_event a names' ev"
  by (auto simp: removal_event_def split: event.splits)


lemma runOnChanged_events:
  "\<exists>X. events (runOnChanged f (secret_path a f) cmd w) = events w @ X
        \<and> list_all (update_event a [f]) X \<and> list_all (removal_event a [f]) X"
  by (auto simp: runOnChanged_def emit_def update_event_def removal_event_def)

lemma runOnChanged_frame [simp]:
  "fs (runOnChanged f p cmd w) = fs w" "clock (runOnChanged f p cmd w) = clock w"
  by (simp_all add: runOnChanged_def emit_def)


lemma list_all_mono_removal:
  "list_all (removal_event a [f]) X \<Longrightarrow> f \<in> set names \<Longrightarrow> list_all (removal_event a names) X"
  by (induction X) (auto intro: removal_event_mono[of "[f]"])


lemma list_all_removal_weaken:
  "list_all (removal_event a names) X \<Longrightarrow> set names \<subseteq> set names' \<Longrightarrow> list_all (removal_event a names') X"
  by (induction X) (auto intro: removal_event_mono)


lemma Remove_any:
  assumes "os_Remove E (secret_path a g) w = (r, w')"
  shows "\<exists>X. events w' = events w @ X \<and> list_all (removal_event a [g]) X"
  using Remove_frame(1)[OF assms] by (auto simp: removal_event_def)

text \<open>The second loop, however it ends.\<close>

lemma extract_prev_any:
  assumes "extract_prev E a names P w = (r, w')"
  shows "\<exists>R. events w' = events w @ R
           \<and> list_all (removal_event a (map fst (filter (\<lambda>e. fst e \<notin> set names) P))) R"
    and "\<forall>e\<in>set P. fst e \<notin> set names \<longrightarrow> q \<noteq> secret_path a (fst e) \<Longrightarrow> fs w' q = fs w q"
proof -
  have "(\<exists>R. events w' = events w @ R
           \<and> list_all (removal_event a (map fst (filter (\<lambda>e. fst e \<notin> set names) P))) R)
        \<and> ((\<forall>e\<in>set P. fst e \<notin> set names \<longrightarrow> q \<noteq> secret_path a (fst e)) \<longrightarrow> fs w' q = fs w q)"
    using assms
  proof (induction P arbitrary: w)
    case Nil
    then show ?case by simp
  next
    case (Cons e P)
    obtain g c where e: "e = (g, c)" by (cases e)
    show ?case
    proof (cases "g \<in> set names")
      case True
      with Cons.prems have "extract_prev E a names P w = (r, w')" by (simp add: e)
      from Cons.IH[OF this] True show ?thesis by (simp add: e)
    next
      case False
      let ?keep = "filter (\<lambda>e. fst e \<notin> set names) (e # P)"
      let ?w1 = "emit (LogRemoving g) w"
      obtain r2 w2 where rm: "os_Remove E (secret_path a g) ?w1 = (r2, w2)"
        by (cases "os_Remove E (secret_path a g) ?w1")
      from Remove_any[OF rm] obtain X where
        X: "events w2 = events ?w1 @ X" "list_all (removal_event a [g]) X" by blast
      have gk: "g \<in> set (map fst ?keep)" using False by (simp add: e)
      have X': "list_all (removal_event a (map fst ?keep)) (LogRemoving g # X)"
        using list_all_mono_removal[OF X(2) gk] False
        by (simp add: e removal_event_def)
      have fr: "fs w2 q = fs w q" if "q \<noteq> secret_path a g"
        using Remove_frame(3)[OF rm that] by (simp add: emit_def)
      show ?thesis
      proof (cases "\<exists>err. r2 = Inl err \<and> \<not> IsNotExist err")
        case True
        with Cons.prems rm False have "w' = w2" by (auto simp: e Let_def)
        with X X' fr False show ?thesis
          by (intro conjI exI[of _ "LogRemoving g # X"]) (auto simp: emit_def e)
      next
        case go: False
        let ?w3 = "runOnChanged g (secret_path a g) (OnChanged c) w2"
        from Cons.prems rm False go have rec: "extract_prev E a names P ?w3 = (r, w')"
          by (cases r2) (auto simp: e Let_def)
        from Cons.IH[OF rec] obtain R where
          R: "events w' = events ?w3 @ R"
             "list_all (removal_event a (map fst (filter (\<lambda>e. fst e \<notin> set names) P))) R"
          and fr2: "(\<forall>e\<in>set P. fst e \<notin> set names \<longrightarrow> q \<noteq> secret_path a (fst e)) \<longrightarrow> fs w' q = fs ?w3 q"
          by blast
        from runOnChanged_events[of g a "OnChanged c" w2] obtain H where
          H: "events ?w3 = events w2 @ H" "list_all (removal_event a [g]) H" by blast
        have 1: "list_all (removal_event a (map fst ?keep)) H"
          by (rule list_all_mono_removal[OF H(2) gk])
        have 2: "list_all (removal_event a (map fst ?keep)) R"
          by (rule list_all_removal_weaken[OF R(2)]) auto
        from R(1) H(1) X(1) have "events w' = events w @ (LogRemoving g # X) @ H @ R"
          by (simp add: emit_def)
        with X' 1 2 have ev: "\<exists>R. events w' = events w @ R \<and> list_all (removal_event a (map fst ?keep)) R"
          by (intro exI[of _ "(LogRemoving g # X) @ H @ R"]) simp
        have "fs w' q = fs w q"
          if "\<forall>e\<in>set (e # P). fst e \<notin> set names \<longrightarrow> q \<noteq> secret_path a (fst e)"
          using that fr2 fr False by (simp add: e)
        with ev show ?thesis by blast
      qed
    qed
  qed
  then show "\<exists>R. events w' = events w @ R
           \<and> list_all (removal_event a (map fst (filter (\<lambda>e. fst e \<notin> set names) P))) R"
    and "\<forall>e\<in>set P. fst e \<notin> set names \<longrightarrow> q \<noteq> secret_path a (fst e) \<Longrightarrow> fs w' q = fs w q"
    by blast+
qed

lemma extract_next_frame:
  assumes "extract_next E a N acc w = (r, w')"
  shows "clock w' = clock w"
    and "\<forall>f\<in>set (map fst N). q \<noteq> secret_path a f \<and> q \<noteq> tmp_of (secret_path a f) \<Longrightarrow> fs w' q = fs w q"
proof -
  have "clock w' = clock w \<and>
        ((\<forall>f\<in>set (map fst N). q \<noteq> secret_path a f \<and> q \<noteq> tmp_of (secret_path a f)) \<longrightarrow> fs w' q = fs w q)"
    using assms
  proof (induction N arbitrary: acc w)
    case Nil
    then show ?case by simp
  next
    case (Cons e N)
    obtain f c where e: "e = (f, c)" by (cases e)
    let ?w1 = "emit (LogExtracting f) w"
    obtain r2 w2 where u: "updateSecret E (secret_path a f) (Value c) ?w1 = (r2, w2)"
      by (cases "updateSecret E (secret_path a f) (Value c) ?w1")
    note F = updateSecret_frame[OF u]
    show ?case
    proof (cases r2)
      case (Inl err)
      with Cons.prems u have "w' = w2" by (simp add: e)
      with F show ?thesis by (simp add: e emit_def)
    next
      case (Inr ch)
      let ?w3 = "if ch then runOnChanged f (secret_path a f) (OnChanged c) w2 else w2"
      from Cons.prems u Inr have rec: "extract_next E a N (f # acc) ?w3 = (r, w')"
        by (simp add: e)
      from Cons.IH[OF rec] F show ?thesis by (simp add: e emit_def)
    qed
  qed
  then show "clock w' = clock w"
    and "\<forall>f\<in>set (map fst N). q \<noteq> secret_path a f \<and> q \<noteq> tmp_of (secret_path a f) \<Longrightarrow> fs w' q = fs w q"
    by blast+
qed







lemma extract_prev_clock:
  "extract_prev E a names P w = (r, w') \<Longrightarrow> clock w' = clock w"
proof (induction P arbitrary: w)
  case Nil
  then show ?case by simp
next
  case (Cons e P)
  obtain g c where e: "e = (g, c)" by (cases e)
  show ?case
  proof (cases "g \<in> set names")
    case True
    with Cons show ?thesis by (simp add: e)
  next
    case False
    let ?w1 = "emit (LogRemoving g) w"
    obtain r2 w2 where rm: "os_Remove E (secret_path a g) ?w1 = (r2, w2)"
      by (cases "os_Remove E (secret_path a g) ?w1")
    from Remove_frame(2)[OF rm] have c2: "clock w2 = clock w" by (simp add: emit_def)
    let ?w3 = "runOnChanged g (secret_path a g) (OnChanged c) w2"
    show ?thesis
    proof (cases "\<exists>err. r2 = Inl err \<and> \<not> IsNotExist err")
      case True
      with Cons.prems rm False have "w' = w2" by (auto simp: e Let_def)
      with c2 show ?thesis by simp
    next
      case go: False
      from Cons.prems rm False go have "extract_prev E a names P ?w3 = (r, w')"
        by (cases r2) (auto simp: e Let_def)
      from Cons.IH[OF this] c2 show ?thesis by simp
    qed
  qed
qed

text \<open>What \<^verbatim>\<open>extract\<close> leaves alone, however it ends.\<close>

lemma App_extract_frame:
  assumes run: "App_extract E a config w = (r, w')"
  shows "clock w' = clock w"
    and "\<forall>f\<in>set (map fst (next config)). q \<noteq> secret_path a f \<and> q \<noteq> tmp_of (secret_path a f)
         \<Longrightarrow> \<forall>g\<in>set (map fst (prev_entries config)). q \<noteq> secret_path a g
         \<Longrightarrow> fs w' q = fs w q"
proof -
  have "clock w' = clock w \<and>
     ((\<forall>f\<in>set (map fst (next config)). q \<noteq> secret_path a f \<and> q \<noteq> tmp_of (secret_path a f)) \<longrightarrow>
      (\<forall>g\<in>set (map fst (prev_entries config)). q \<noteq> secret_path a g) \<longrightarrow> fs w' q = fs w q)"
  proof (cases "os_Stat (SecretsDir a) w")
    case (Inl err)
    with run show ?thesis by (simp add: App_extract_def)
  next
    case st: (Inr nd)
    obtain r1 w1 where n: "extract_next E a (next config) [] w = (r1, w1)"
      by (cases "extract_next E a (next config) [] w")
    note F = extract_next_frame[OF n]
    show ?thesis
    proof (cases r1)
      case (Inl err)
      with run st n have "w' = w1" by (simp add: App_extract_def)
      with F show ?thesis by simp
    next
      case (Inr names)
      show ?thesis
      proof (cases "prev config")
        case None
        with run st n Inr have "w' = w1" by (simp add: App_extract_def)
        with F show ?thesis by simp
      next
        case (Some p)
        with run st n Inr have pv: "extract_prev E a names p w1 = (r, w')"
          by (simp add: App_extract_def)
        have "fs w' q = fs w1 q" if "\<forall>g\<in>set (map fst (prev_entries config)). q \<noteq> secret_path a g"
          by (rule extract_prev_any(2)[OF pv]) (use that Some in \<open>simp add: prev_entries_def\<close>)
        with F extract_prev_clock[OF pv] show ?thesis by simp
      qed
    qed
  qed
  then show "clock w' = clock w"
    and "\<forall>f\<in>set (map fst (next config)). q \<noteq> secret_path a f \<and> q \<noteq> tmp_of (secret_path a f)
         \<Longrightarrow> \<forall>g\<in>set (map fst (prev_entries config)). q \<noteq> secret_path a g
         \<Longrightarrow> fs w' q = fs w q"
    by blast+
qed

section \<open>The check-in of the current agent\<close>

lemma checkin_not_modified:
  assumes "\<not> url_invalid E (configUrl a)" "http_Do E (build_request a w) = Inr res"
    and "StatusCode res = 304 \<or> StatusCode res = 204"
  shows "checkin E a w = (Inl NotModifiedError, w)"
  using assms by (auto simp: checkin_def)

text \<open>Status 200: a failure before \<^verbatim>\<open>extract\<close> changes nothing; if the persisted bundle is
  not the same node afterwards, the body was decoded and \<^verbatim>\<open>extract\<close> had returned nil.\<close>

lemma checkin_200_decode_fails:
  assumes "read_error (Body res) \<noteq> None \<or> (\<exists>err. Unmarshall E True (data (Body res)) = Inl err)
           \<or> (\<exists>err. load_prev E a w = Inl err)"
  shows "\<exists>err. checkin_200 E a res w = (Inl err, w)"
  using assms
  by (auto simp: checkin_200_def ioutil_ReadAll_def split: option.splits sum.splits)

lemma checkin_200_extract_fails:
  assumes "read_error (Body res) = None" "Unmarshall E True (data (Body res)) = Inr nxt"
    "load_prev E a w = Inr prv" "App_extract E a \<lparr>prev = prv, next = nxt\<rparr> w = (Inl err, w1)"
  shows "checkin_200 E a res w = (Inl err, w1)"
  using assms by (simp add: checkin_200_def ioutil_ReadAll_def)

lemma checkin_200_bundle_changed:
  assumes run: "checkin_200 E a res w = (r, w')"
    and changed: "fs w' (EncryptedConfig a) \<noteq> fs w (EncryptedConfig a)"
    and apart: "\<forall>f. EncryptedConfig a \<noteq> secret_path a f \<and> EncryptedConfig a \<noteq> tmp_of (secret_path a f)"
  shows "\<exists>nxt prv w1. Unmarshall E True (data (Body res)) = Inr nxt \<and> load_prev E a w = Inr prv
            \<and> App_extract E a \<lparr>prev = prv, next = nxt\<rparr> w = (Inr (), w1)"
proof -
  from run changed have re: "read_error (Body res) = None"
    by (auto simp: checkin_200_def ioutil_ReadAll_def split: option.splits)
  from run changed re obtain nxt where nxt: "Unmarshall E True (data (Body res)) = Inr nxt"
    by (cases "Unmarshall E True (data (Body res))") (auto simp: checkin_200_def ioutil_ReadAll_def)
  from run changed re nxt obtain prv where prv: "load_prev E a w = Inr prv"
    by (cases "load_prev E a w") (auto simp: checkin_200_def ioutil_ReadAll_def)
  obtain r1 w1 where ex: "App_extract E a \<lparr>prev = prv, next = nxt\<rparr> w = (r1, w1)"
    by (cases "App_extract E a \<lparr>prev = prv, next = nxt\<rparr> w")
  have kept: "fs w1 (EncryptedConfig a) = fs w (EncryptedConfig a)"
    by (rule App_extract_frame(2)[OF ex]) (use apart in auto)
  have "r1 = Inr ()"
  proof (cases r1)
    case (Inl err)
    with run re nxt prv ex have "w' = w1" by (simp add: checkin_200_def ioutil_ReadAll_def)
    with kept changed show ?thesis by simp
  next
    case (Inr u)
    then show ?thesis by simp
  qed
  with nxt prv ex show ?thesis by blast
qed

lemma Chtimes_Inr:
  assumes "os_Chtimes E p t w = (Inr u, w')"
  shows "\<exists>n. fs w p = Some n \<and> fs w' p = Some (set_modtime t n)"
  using assms by (auto simp: os_Chtimes_def emit_def Let_def split: option.splits if_splits)

lemma checkin_200_Inr:
  assumes "checkin_200 E a res w = (Inr u, w')"
  shows "\<exists>m. fs w' (EncryptedConfig a) =
           Some (File (data (Body res)) m
                  (case time_Parse E (Header_Date res) of Some t \<Rightarrow> t | None \<Rightarrow> clock w))"
proof -
  let ?p = "EncryptedConfig a"
  let ?b = "data (Body res)"
  from assms have re: "read_error (Body res) = None"
    by (auto simp: checkin_200_def ioutil_ReadAll_def split: option.splits)
  from assms re obtain nxt where nxt: "Unmarshall E True ?b = Inr nxt"
    by (cases "Unmarshall E True ?b") (auto simp: checkin_200_def ioutil_ReadAll_def)
  from assms re nxt obtain prv where prv: "load_prev E a w = Inr prv"
    by (cases "load_prev E a w") (auto simp: checkin_200_def ioutil_ReadAll_def)
  obtain r1 w1 where ex: "App_extract E a \<lparr>prev = prv, next = nxt\<rparr> w = (r1, w1)"
    by (cases "App_extract E a \<lparr>prev = prv, next = nxt\<rparr> w")
  from assms re nxt prv ex obtain u1 where r1: "r1 = Inr u1"
    by (cases r1) (auto simp: checkin_200_def ioutil_ReadAll_def)
  obtain r2 w2 where sw: "safeWrite E ?p ?b w1 = (r2, w2)"
    by (cases "safeWrite E ?p ?b w1")
  from assms re nxt prv ex r1 sw obtain u2 where r2: "r2 = Inr u2"
    by (cases r2) (auto simp: checkin_200_def ioutil_ReadAll_def)
  note S = safeWrite_Inr[OF sw[unfolded r2]]
  have c1: "clock w1 = clock w" by (rule App_extract_frame(1)[OF ex])
  let ?t = "case time_Parse E (Header_Date res) of Some t \<Rightarrow> t | None \<Rightarrow> clock w2"
  from assms re nxt prv ex r1 sw r2 obtain u3 where ch: "os_Chtimes E ?p ?t w2 = (Inr u3, w')"
    by (cases "os_Chtimes E ?p ?t w2"; cases "fst (os_Chtimes E ?p ?t w2)")
       (auto simp: checkin_200_def ioutil_ReadAll_def Let_def)
  from Chtimes_Inr[OF ch] obtain n where n: "fs w2 ?p = Some n" "fs w' ?p = Some (set_modtime ?t n)"
    by blast
  have "clock w2 = clock w" using S c1 by simp
  then have t: "?t = (case time_Parse E (Header_Date res) of Some t \<Rightarrow> t | None \<Rightarrow> clock w)"
    by (cases "time_Parse E (Header_Date res)") simp_all
  from n(1) S have "n = written_node E w1 ?p ?b" by simp
  then have "\<exists>m. n = File ?b m (clock w1)" by (simp add: written_node_def)
  then obtain m where "n = File ?b m (clock w1)" by blast
  with n(2) show ?thesis unfolding t by (simp add: set_modtime_def)
qed

text \<open>
  C8. When the server answers with a status other than 200, 304 and 204, \<^verbatim>\<open>checkin\<close> returns
  the error that carries the status code and the text of the body, and the world is the one
  it started in: no file changed, no system call made.
\<close>

theorem checkin_other_status:
  assumes "\<not> url_invalid E (configUrl a)"
    and "http_Do E (build_request a w) = Inr res"
    and "StatusCode res \<noteq> 200" and "StatusCode res \<noteq> 304" and "StatusCode res \<noteq> 204"
  shows "checkin E a w = (Inl (HTTPError (configUrl a) (StatusCode res) (data (Body res))), w)"
  using assms by (simp add: checkin_def ioutil_ReadAll_def)

text \<open>The mode \<^verbatim>\<open>safeWrite\<close> creates a file with.\<close>

lemma mode_0640_no_other: "(mode_0640 AND NOT u) AND 0b111 = 0"
proof -
  have "(mode_0640 AND NOT u) AND 0b111 = (mode_0640 AND 0b111) AND NOT u"
    by (simp add: ac_simps)
  also have "mode_0640 AND 0b111 = 0" by (simp add: mode_0640_def)
  finally show ?thesis by simp
qed

lemma safeWrite_mode:
  assumes "safeWrite E p c w = (Inr u, w')" "fs w (tmp_of p) = None"
  shows "\<exists>t. fs w' p = Some (File c (mode_0640 AND NOT (umask E)) t)"
  using safeWrite_Inr[OF assms(1)] assms(2) by (simp add: written_node_def)

section \<open>The check-in and the extraction of \<^verbatim>\<open>internal/app.go\<close>\<close>

text \<open>The current agent on the inputs below, for comparison.\<close>

lemma checkin_undecodable_body:
  "checkin (ex_env (ex_response 200 ''garbage'')) ex_app ex_world
     = (Inl (External ''bad bundle''), ex_world)"
  by (simp add: checkin_def checkin_200_def ex_env_def ex_response_def ex_codec_def
      ioutil_ReadAll_def)

lemma checkin_sets_server_time:
  "fst (checkin (ex_env (ex_response 200 ''B1'')) ex_app ex_world) = Inr ()
   \<and> fs (snd (checkin (ex_env (ex_response 200 ''B1'')) ex_app ex_world)) (EncryptedConfig ex_app)
       = Some (File ''B1'' mode_0640 1136214245)"
  by code_simp

text \<open>
  C4. The claim: the persisted bundle is overwritten only after the decoded bundle has been
  materialized. \<^verbatim>\<open>CheckIn\<close> of \<^verbatim>\<open>internal/app.go\<close> writes the response body over the persisted
  bundle first and calls \<^verbatim>\<open>Extract\<close> afterwards: on a body that does not decode it returns the
  codec's error with the bundle already replaced.
\<close>

theorem app_CheckIn_persists_before_extract:
  "fst (app_CheckIn (ex_env (ex_response 200 ''garbage'')) ex_app ex_world)
     = Inl (External ''bad bundle'')
   \<and> on_disk ex_world (EncryptedConfig ex_app) = Some ''B0''
   \<and> on_disk (snd (app_CheckIn (ex_env (ex_response 200 ''garbage'')) ex_app ex_world))
        (EncryptedConfig ex_app) = Some ''garbage''"
  by code_simp

text \<open>
  C5. The claim: after a check-in with status 200 the persisted bundle carries the time of the
  \<^verbatim>\<open>Date\<close> header. \<^verbatim>\<open>CheckIn\<close> of \<^verbatim>\<open>internal/app.go\<close> never sets the time (its comment says what
  is missing): the header parses to 1136214245 and the file keeps the local time of the write,
  1136214999.
\<close>

theorem app_CheckIn_keeps_local_time:
  "fst (app_CheckIn (ex_env (ex_response 200 ''B1'')) ex_app ex_world) = Inr ()
   \<and> time_Parse (ex_env (ex_response 200 ''B1'')) (Header_Date (ex_response 200 ''B1''))
       = Some 1136214245
   \<and> map_option modtime
        (fs (snd (app_CheckIn (ex_env (ex_response 200 ''B1'')) ex_app ex_world))
           (EncryptedConfig ex_app)) = Some 1136214999"
  by code_simp

text \<open>
  C7. The claim: status 204 ends as status 304 does, with \<open>NotModifiedError\<close>. \<^verbatim>\<open>CheckIn\<close> of
  \<^verbatim>\<open>internal/app.go\<close> has no branch for 204, which falls to the last one: the error of an
  unexpected status.
\<close>

theorem app_CheckIn_204_is_error:
  "fst (app_CheckIn (ex_env (ex_response 304 [])) ex_app ex_world) = Inl NotModifiedError
   \<and> fst (app_CheckIn (ex_env (ex_response 204 [])) ex_app ex_world)
       = Inl (HTTPError ''https://ota/config'' 204 [])"
  by code_simp

text \<open>
  C9. The claim: a secret file is created with a mode that gives other users nothing.
  \<^verbatim>\<open>Extract\<close> of \<^verbatim>\<open>internal/app.go\<close> creates it with \<^verbatim>\<open>0644\<close>: under the umask \<^verbatim>\<open>022\<close> the new file
  is readable by everyone.
\<close>

theorem app_Extract_world_readable:
  "fst (app_Extract (ex_env (ex_response 200 [])) ex_app ex_fresh_world) = Inr ()
   \<and> fs (snd (app_Extract (ex_env (ex_response 200 [])) ex_app ex_fresh_world))
        ''/run/secrets/b.conf'' = Some (File ''secretB'' mode_0644 1136214999)
   \<and> mode_0644 AND 0b111 = 0b100"
  by code_simp

section \<open>A name that is another name's temporary file\<close>




section \<open>A temporary path that cannot be removed\<close>

text \<open>
  C10, as stated, fails where the operating system refuses the rename and the removal: the
  temporary file is written, the rename fails, the deferred removal fails too, and
  \<^verbatim>\<open>safeWrite\<close> returns the error of the rename with the temporary file, now holding the new
  content, still there.
\<close>

theorem safeWrite_tmp_stays_counterexample:
  "fst (safeWrite ex_refusing_env ''/run/secrets/a.conf'' ''secretA'' ex_stale_world)
     = Inl (UnableToUpdateSecret ''/run/secrets/a.conf''
              (LinkError ''rename'' ''/run/secrets/a.conf.tmp'' ''/run/secrets/a.conf'' EACCES))
   \<and> fs (snd (safeWrite ex_refusing_env ''/run/secrets/a.conf'' ''secretA'' ex_stale_world))
        ''/run/secrets/a.conf.tmp'' = Some (File ''secretA'' mode_0640 1136214999)"
  by code_simp

section \<open>The theorems at a concrete run\<close>






theorem checkin_other_status_witness:
  "\<not> url_invalid (ex_env (ex_response 500 ''server error'')) (configUrl ex_app)
   \<and> http_Do (ex_env (ex_response 500 ''server error'')) (build_request ex_app ex_world)
       = Inr (ex_response 500 ''server error'')
   \<and> checkin (ex_env (ex_response 500 ''server error'')) ex_app ex_world
       = (Inl (HTTPError ''https://ota/config'' 500 ''server error''), ex_world)"
proof -
  let ?E = "ex_env (ex_response 500 ''server error'')"
  have 1: "\<not> url_invalid ?E (configUrl ex_app)" by (simp add: ex_env_def)
  have 2: "http_Do ?E (build_request ex_app ex_world) = Inr (ex_response 500 ''server error'')"
    by (simp add: ex_env_def)
  have 3: "StatusCode (ex_response 500 ''server error'') \<noteq> 200"
    "StatusCode (ex_response 500 ''server error'') \<noteq> 304"
    "StatusCode (ex_response 500 ''server error'') \<noteq> 204"
    by (simp_all add: ex_response_def)
  from checkin_other_status[OF 1 2 3] 1 2 show ?thesis
    by (simp add: ex_response_def ex_app_def)
qed

theorem safeWrite_removes_tmp_witness:
  "\<not> remove_fault ex_faulty_env (tmp_of ''/run/secrets/a.conf'')
   \<and> fst (safeWrite ex_faulty_env ''/run/secrets/a.conf'' ''secretA'' ex_world)
       = Inl (UnableToCreate ''/run/secrets/a.conf.tmp'' (PathError ''write'' ''/run/secrets/a.conf.tmp'' EIO))
   \<and> fs (snd (safeWrite ex_faulty_env ''/run/secrets/a.conf'' ''secretA'' ex_world))
        (tmp_of ''/run/secrets/a.conf'') = None
   \<and> (\<exists>b. last (events (snd (safeWrite ex_faulty_env ''/run/secrets/a.conf'' ''secretA'' ex_world)))
            = SysRemove (tmp_of ''/run/secrets/a.conf'') b)"
proof -
  have 1: "\<not> remove_fault ex_faulty_env (tmp_of ''/run/secrets/a.conf'')"
    by (simp add: ex_faulty_env_def ex_env_def)
  have 2: "safeWrite ex_faulty_env ''/run/secrets/a.conf'' ''secretA'' ex_world =
            (fst (safeWrite ex_faulty_env ''/run/secrets/a.conf'' ''secretA'' ex_world),
             snd (safeWrite ex_faulty_env ''/run/secrets/a.conf'' ''secretA'' ex_world))"
    by simp
  have 3: "fst (safeWrite ex_faulty_env ''/run/secrets/a.conf'' ''secretA'' ex_world)
       = Inl (UnableToCreate ''/run/secrets/a.conf.tmp'' (PathError ''write'' ''/run/secrets/a.conf.tmp'' EIO))"
    by code_simp
  from safeWrite_removes_tmp[OF 1 2] 1 3 show ?thesis by blast
qed

section \<open>Numeric identifiers\<close>

lemma length_takeWhile_less_iff:
  "length (takeWhile P xs) < length xs \<longleftrightarrow> (\<exists>x\<in>set xs. \<not> P x)"
  by (induction xs) auto

lemma idToBytes_step_eq:
  assumes "k < length bs"
  shows "idToBytes_step k (map digit (take k bs) @ drop k bs, st) =
           (map digit (take (Suc k) bs) @ drop (Suc k) bs,
            if digit (bs ! k) \<noteq> 0 \<and> st = - 1 then int k else st)"
proof -
  let ?xs = "map digit (take k bs) @ drop k bs"
  have nth: "?xs ! k = bs ! k"
    using assms by (simp add: nth_append)
  have upd: "?xs[k := digit (bs ! k)] = map digit (take (Suc k) bs) @ drop (Suc k) bs"
    using assms
    by (simp add: list_update_append take_Suc_conv_app_nth upd_conv_take_nth_drop
        Cons_nth_drop_Suc[symmetric])
  have nth': "(map digit (take (Suc k) bs) @ drop (Suc k) bs) ! k = digit (bs ! k)"
    using assms by (simp add: nth_append take_Suc_conv_app_nth)
  have "idToBytes_step k (?xs, st) =
          (?xs[k := digit (?xs ! k)],
           if (?xs[k := digit (?xs ! k)]) ! k \<noteq> 0 \<and> st = - 1 then int k else st)"
    by (simp add: idToBytes_step_def Let_def digit_def)
  then show ?thesis by (simp only: nth nth' upd)
qed

lemma idToBytes_fold:
  assumes "k \<le> length bs"
  shows "fold idToBytes_step [0..<k] (bs, - 1) =
           (map digit (take k bs) @ drop k bs,
            if length (takeWhile (\<lambda>b. digit b = 0) (take k bs)) < k
            then int (length (takeWhile (\<lambda>b. digit b = 0) (take k bs))) else - 1)"
  using assms
proof (induction k)
  case 0
  then show ?case by simp
next
  case (Suc k)
  then have k: "k < length bs" by simp
  let ?P = "\<lambda>b. digit b = 0"
  let ?j = "length (takeWhile ?P (take k bs))"
  have lk: "length (take k bs) = k" using k by simp
  have jk: "?j \<le> k" using length_takeWhile_le[of ?P "take k bs"] lk by simp
  have tk: "take (Suc k) bs = take k bs @ [bs ! k]"
    using k by (simp add: take_Suc_conv_app_nth)
  have j': "length (takeWhile ?P (take (Suc k) bs)) =
              (if ?j < k then ?j else if ?P (bs ! k) then Suc k else k)"
  proof (cases "?j < k")
    case True
    then have "?j < length (take k bs)" unfolding lk .
    then have "\<exists>x\<in>set (take k bs). \<not> ?P x"
      unfolding length_takeWhile_less_iff .
    then obtain x where "x \<in> set (take k bs)" "\<not> ?P x" by blast
    then have "takeWhile ?P (take k bs @ [bs ! k]) = takeWhile ?P (take k bs)"
      by (rule takeWhile_append1)
    then show ?thesis using True by (simp only: tk if_True)
  next
    case False
    then have "\<not> ?j < length (take k bs)" unfolding lk .
    then have "\<not> (\<exists>x\<in>set (take k bs). \<not> ?P x)"
      unfolding length_takeWhile_less_iff .
    then have all: "\<And>x. x \<in> set (take k bs) \<Longrightarrow> ?P x" by blast
    then have "takeWhile ?P (take k bs @ [bs ! k]) = take k bs @ takeWhile ?P [bs ! k]"
      by (rule takeWhile_append2)
    then show ?thesis using False lk by (simp add: tk)
  qed
  have "fold idToBytes_step [0..<Suc k] (bs, - 1) =
          idToBytes_step k (fold idToBytes_step [0..<k] (bs, - 1))"
    by simp
  also have "\<dots> = idToBytes_step k (map digit (take k bs) @ drop k bs,
                      if ?j < k then int ?j else - 1)"
    using Suc.IH k by simp
  also have "\<dots> = (map digit (take (Suc k) bs) @ drop (Suc k) bs,
            if digit (bs ! k) \<noteq> 0 \<and> (if ?j < k then int ?j else - 1) = - 1 then int k
            else (if ?j < k then int ?j else - 1))"
    by (rule idToBytes_step_eq[OF k])
  finally show ?case
    unfolding j' using jk by (auto split: if_splits)
qed

lemma idToBytes_eq:
  "idToBytes s =
     (let ds = map (\<lambda>c. of_char c - of_char CHR ''0'') s
      in if \<forall>d\<in>set ds. d = 0 then Inl (SliceBoundsOutOfRange (- 1))
         else Inr (dropWhile (\<lambda>d. d = 0) ds))"
proof -
  let ?bs = "map of_char s :: byte list"
  let ?ds = "map digit ?bs"
  let ?j = "length (takeWhile (\<lambda>d. d = 0) ?ds)"
  have ds: "map (\<lambda>c. of_char c - of_char CHR ''0'') s = ?ds"
    by (simp add: digit_def)
  have tw: "length (takeWhile (\<lambda>b. digit b = 0) ?bs) = ?j"
    by (simp add: takeWhile_map comp_def)
  have len: "length ?ds = length ?bs" by (simp only: length_map)
  have F: "fold idToBytes_step [0..<length ?bs] (?bs, - 1) =
             (?ds, if ?j < length ?ds then int ?j else - 1)"
    using idToBytes_fold[of "length ?bs" ?bs, OF le_refl]
    by (simp only: take_all[OF le_refl] drop_all[OF le_refl] append_Nil2 tw len)
  have allz: "(\<forall>d\<in>set ?ds. d = 0) \<longleftrightarrow> \<not> ?j < length ?ds"
    using length_takeWhile_less_iff[of "\<lambda>d. d = 0" ?ds] by blast
  have jl: "?j \<le> length ?ds" by (rule length_takeWhile_le)
  have res: "idToBytes s =
      (if ?j < length ?ds then Inr (drop ?j ?ds) else Inl (SliceBoundsOutOfRange (- 1)))"
  proof (cases "?j < length ?ds")
    case True
    then show ?thesis unfolding idToBytes_def Let_def F by (simp del: map_map length_map)
  next
    case False
    then show ?thesis unfolding idToBytes_def Let_def F by (simp del: map_map length_map)
  qed
  have dw: "dropWhile (\<lambda>d. d = 0) ?ds = drop ?j ?ds" by (rule dropWhile_eq_drop)
  show ?thesis
    unfolding res Let_def ds allz dw
    by (cases "?j < length ?ds"; simp del: map_map length_map)
qed

lemma idToBytes_01: "idToBytes ''01'' = Inr [1]"
  by (simp add: idToBytes_def idToBytes_step_def upt_rec)

lemma idToBytes_10: "idToBytes ''10'' = Inr [1, 0]"
  by (simp add: idToBytes_def idToBytes_step_def upt_rec)

text \<open>
  C3. The claim has \<^verbatim>\<open>idToBytes\<close> map \<open>''00''\<close> to the empty byte sequence. No digit of
  \<open>''00''\<close> sets \<open>start\<close>, which stays \<open>-1\<close>, and the slice expression \<^verbatim>\<open>bytes[start:]\<close>
  panics: the function returns nothing.
\<close>

theorem idToBytes_00_panics: "idToBytes ''00'' = Inl (SliceBoundsOutOfRange (- 1))"
  by (simp add: idToBytes_def idToBytes_step_def upt_rec)

end
